theory Spec2Isabelle
  imports Complex_Main "HOL-Library.Word"
begin

unbundle bit_operations_syntax

section \<open>Error taxonomy (package types)\<close>

text \<open>
  \<open>ErrorType\<close> is a Go string type with five named constants; a \<open>RetryConfig\<close> may list
  any of them (or any other string) as retryable, so the type stays \<open>string\<close>.
\<close>

type_synonym ErrorType = string

definition ErrorTypeAPI :: ErrorType where "ErrorTypeAPI = ''api_error''"
definition ErrorTypeNetwork :: ErrorType where "ErrorTypeNetwork = ''network_error''"
definition ErrorTypeAuth :: ErrorType where "ErrorTypeAuth = ''auth_error''"
definition ErrorTypeValidation :: ErrorType where "ErrorTypeValidation = ''validation_error''"
definition ErrorTypeRateLimit :: ErrorType where "ErrorTypeRateLimit = ''rate_limit_error''"

text \<open>
  Message texts built with \<open>fmt.Sprintf\<close> are kept as the format string with its
  arguments; the rendering of \<open>%d\<close>, \<open>%v\<close> and \<open>%s\<close> plays no part in any decision
  of the code.
\<close>

datatype fmt_arg = ArgInt int | ArgStr string | ArgDuration int

datatype message = Plain string | Sprintf string "fmt_arg list"

record ZaloBotError =
  Code :: int
  Message :: message
  Description :: message
  Type :: ErrorType

text \<open>A Go \<open>error\<close> value is either a \<open>*ZaloBotError\<close> or an error of some other type.\<close>

datatype error = ZaloErr ZaloBotError | OtherErr string

definition IsRetryable :: "ZaloBotError \<Rightarrow> bool" where
  "IsRetryable e =
     (if Type e = ErrorTypeNetwork \<or> Type e = ErrorTypeRateLimit then True
      else if Type e = ErrorTypeAPI then Code e \<ge> 500 \<and> Code e < 600
      else False)"

definition NewAPIError :: "int \<Rightarrow> message \<Rightarrow> message \<Rightarrow> ZaloBotError" where
  "NewAPIError code msg description =
     \<lparr>Code = code, Message = msg, Description = description, Type = ErrorTypeAPI\<rparr>"

definition NewNetworkError :: "message \<Rightarrow> ZaloBotError" where
  "NewNetworkError msg =
     \<lparr>Code = 0, Message = msg, Description = Plain [], Type = ErrorTypeNetwork\<rparr>"

definition NewAuthError :: "message \<Rightarrow> ZaloBotError" where
  "NewAuthError msg =
     \<lparr>Code = 401, Message = msg, Description = Plain [], Type = ErrorTypeAuth\<rparr>"

definition NewValidationError :: "message \<Rightarrow> ZaloBotError" where
  "NewValidationError msg =
     \<lparr>Code = 400, Message = msg, Description = Plain [], Type = ErrorTypeValidation\<rparr>"

definition NewRateLimitError :: "message \<Rightarrow> ZaloBotError" where
  "NewRateLimitError msg =
     \<lparr>Code = 429, Message = msg, Description = Plain [], Type = ErrorTypeRateLimit\<rparr>"

section \<open>Retry policy (package types)\<close>

text \<open>
  Durations are \<open>time.Duration\<close> values, counted in nanoseconds. \<open>BackoffFactor\<close> is a
  \<open>float64\<close>; it is modelled by the rational number it denotes and float arithmetic by
  exact arithmetic. The model therefore agrees with the code wherever every intermediate
  value is exactly representable in binary64 and the converted value fits 64 bits
  (whole numbers up to \<open>2 ^ 53\<close>, small dyadic factors); theorems that need this say so in
  their hypotheses. The conversion \<open>time.Duration(x)\<close> of a float truncates towards zero.
\<close>

record RetryConfig =
  MaxRetries :: int
  InitialDelay :: int
  MaxDelay :: int
  BackoffFactor :: rat
  RetryableErrors :: "ErrorType list"

definition Second :: int where "Second = 1000000000"

definition DefaultRetryConfig :: RetryConfig where
  "DefaultRetryConfig =
     \<lparr>MaxRetries = 3, InitialDelay = 1 * Second, MaxDelay = 30 * Second, BackoffFactor = 2,
      RetryableErrors = [ErrorTypeNetwork, ErrorTypeRateLimit]\<rparr>"

definition ShouldRetry :: "RetryConfig \<Rightarrow> error \<Rightarrow> bool" where
  "ShouldRetry rc err =
     (case err of
        OtherErr _ \<Rightarrow> True
      | ZaloErr zaloBotErr \<Rightarrow>
          if Type zaloBotErr \<in> set (RetryableErrors rc) then True
          else IsRetryable zaloBotErr)"

definition Duration_of_float :: "rat \<Rightarrow> int" where
  "Duration_of_float x = (if 0 \<le> x then \<lfloor>x\<rfloor> else \<lceil>x\<rceil>)"

text \<open>
  The loop of \<open>NextDelay\<close>: \<open>k\<close> iterations remain; a product above \<open>MaxDelay\<close> is replaced
  by \<open>MaxDelay\<close> and ends the loop.
\<close>

fun NextDelay_loop :: "RetryConfig \<Rightarrow> nat \<Rightarrow> int \<Rightarrow> int" where
  "NextDelay_loop rc 0 delay = delay"
| "NextDelay_loop rc (Suc k) delay =
     (let delay' = Duration_of_float (of_int delay * BackoffFactor rc)
      in if delay' > MaxDelay rc then MaxDelay rc else NextDelay_loop rc k delay')"

definition NextDelay :: "RetryConfig \<Rightarrow> int \<Rightarrow> int" where
  "NextDelay rc attempt =
     (if attempt \<le> 0 then InitialDelay rc
      else NextDelay_loop rc (nat attempt) (InitialDelay rc))"

definition calculateBackoffDelay :: "int \<Rightarrow> RetryConfig \<Rightarrow> int" where
  \<comment> \<open>\<open>math.Pow(f, float64(attempt))\<close> for a whole \<open>attempt > 0\<close> is the power \<open>f ^ attempt\<close>.\<close>
  "calculateBackoffDelay attempt config =
     (if attempt \<le> 0 then InitialDelay config
      else
        let delay = Duration_of_float
                      (of_int (InitialDelay config) * BackoffFactor config ^ nat attempt)
        in if delay > MaxDelay config then MaxDelay config else delay)"

section \<open>Request executor (package services)\<close>

record APIResponse =
  OK :: bool
  Result :: string
  ErrorCode :: int
  Description_resp :: string

definition IsError :: "APIResponse \<Rightarrow> bool" where
  "IsError r = (\<not> OK r)"

definition GetError :: "APIResponse \<Rightarrow> error option" where
  "GetError r =
     (if \<not> IsError r then None
      else if ErrorCode r = 429 then
        Some (ZaloErr (NewRateLimitError (Plain (Description_resp r))))
      else if ErrorCode r = 401 \<or> ErrorCode r = 403 then
        Some (ZaloErr (NewAuthError (Plain (Description_resp r))))
      else
        Some (ZaloErr (NewAPIError (ErrorCode r) (Plain (Description_resp r))
                         (Plain ''API request failed''))))"

subsection \<open>Rate-limit headers\<close>

text \<open>
  \<open>strconv.Atoi\<close> and \<open>strconv.ParseInt(s, 10, 64)\<close> on a 64-bit platform: an optional
  sign, then one or more decimal digits, with a value that fits 64 bits; anything else is
  an error.
\<close>

definition digit_val :: "char \<Rightarrow> nat option" where
  "digit_val c =
     (let n = (of_char c :: nat) in if 48 \<le> n \<and> n \<le> 57 then Some (n - 48) else None)"

fun digits_val :: "nat \<Rightarrow> string \<Rightarrow> nat option" where
  "digits_val acc [] = Some acc"
| "digits_val acc (c # cs) =
     (case digit_val c of None \<Rightarrow> None | Some d \<Rightarrow> digits_val (10 * acc + d) cs)"

definition ParseInt64 :: "string \<Rightarrow> int option" where
  "ParseInt64 s =
     (case s of
        [] \<Rightarrow> None
      | c # cs \<Rightarrow>
          let neg = (c = CHR ''-'');
              ds = (if c = CHR ''+'' \<or> c = CHR ''-'' then cs else s)
          in if ds = [] then None
             else (case digits_val 0 ds of
                     None \<Rightarrow> None
                   | Some n \<Rightarrow>
                       let v = (if neg then - int n else int n)
                       in if - (2 ^ 63) \<le> v \<and> v < 2 ^ 63 then Some v else None))"

definition Atoi :: "string \<Rightarrow> int option" where
  "Atoi s = ParseInt64 s"

type_synonym header = "(string \<times> string list) list"

definition header_values :: "header \<Rightarrow> string \<Rightarrow> string list" where
  "header_values headers key = (case map_of headers key of None \<Rightarrow> [] | Some vs \<Rightarrow> vs)"

record RateLimitInfo =
  Limit_info :: int
  Remaining :: int
  Reset :: "int option"
  RetryAfter :: int

definition first_parsed :: "(string \<Rightarrow> int option) \<Rightarrow> string list \<Rightarrow> int option" where
  "first_parsed parse vs = (case vs of [] \<Rightarrow> None | v # _ \<Rightarrow> parse v)"

definition int64_mul :: "int \<Rightarrow> int \<Rightarrow> int" where
  \<comment> \<open>multiplication of two \<open>int64\<close> values, wrapping around\<close>
  "int64_mul a b = sint (word_of_int (a * b) :: 64 word)"

definition ParseRateLimitHeaders :: "header \<Rightarrow> RateLimitInfo" where
  "ParseRateLimitHeaders headers =
     \<lparr>Limit_info =
        (case first_parsed Atoi (header_values headers ''X-Ratelimit-Limit'') of
           Some val \<Rightarrow> val | None \<Rightarrow> 0),
      Remaining =
        (case first_parsed Atoi (header_values headers ''X-Ratelimit-Remaining'') of
           Some val \<Rightarrow> val | None \<Rightarrow> 0),
      Reset = first_parsed ParseInt64 (header_values headers ''X-Ratelimit-Reset''),
      RetryAfter =
        (case first_parsed Atoi (header_values headers ''Retry-After'') of
           Some val \<Rightarrow> int64_mul val Second | None \<Rightarrow> 0)\<rparr>"

subsection \<open>One attempt\<close>

text \<open>
  What the HTTP stack hands back to one attempt of \<open>executeRequest\<close>: a failure of one of
  the steps before a response is there, or a response. \<open>Unmarshalled\<close> is the result of
  \<open>json.Unmarshal\<close> on the body: the error text, or the decoded envelope.
\<close>

record HTTPResponse =
  StatusCode :: int
  Header :: header
  Body :: string
  Unmarshalled :: "string + APIResponse"

datatype transport =
    MarshalFailed string
  | NewRequestFailed string
  | DoFailed string
  | ReadAllFailed string
  | Received HTTPResponse

definition executeRequest :: "string \<Rightarrow> transport \<Rightarrow> error + APIResponse" where
  "executeRequest APIMethod t =
     (case t of
        MarshalFailed e \<Rightarrow>
          Inl (ZaloErr (NewValidationError
                 (Sprintf ''failed to marshal request body: %v'' [ArgStr e])))
      | NewRequestFailed e \<Rightarrow>
          Inl (ZaloErr (NewNetworkError (Sprintf ''failed to create request: %v'' [ArgStr e])))
      | DoFailed e \<Rightarrow>
          Inl (ZaloErr (NewNetworkError (Sprintf ''request failed: %v'' [ArgStr e])))
      | ReadAllFailed e \<Rightarrow>
          Inl (ZaloErr (NewNetworkError
                 (Sprintf ''failed to read response body: %v'' [ArgStr e])))
      | Received resp \<Rightarrow>
          let rateLimitInfo = ParseRateLimitHeaders (Header resp)
          in if StatusCode resp = 429 then
               Inl (ZaloErr (NewRateLimitError
                      (if RetryAfter rateLimitInfo > 0
                       then Sprintf ''rate limit exceeded, retry after %s''
                              [ArgDuration (RetryAfter rateLimitInfo)]
                       else Plain ''rate limit exceeded'')))
             else if StatusCode resp = 401 \<or> StatusCode resp = 403 then
               Inl (ZaloErr (NewAuthError
                      (Sprintf ''authentication failed: HTTP %d'' [ArgInt (StatusCode resp)])))
             else
               (case Unmarshalled resp of
                 Inl perr \<Rightarrow>
                   if StatusCode resp \<ge> 500 then
                     Inl (ZaloErr (NewAPIError (StatusCode resp) (Plain ''server error'')
                                     (Plain (Body resp))))
                   else
                     Inl (ZaloErr (NewAPIError (StatusCode resp)
                                     (Plain ''failed to parse response'') (Plain perr)))
               | Inr apiResp \<Rightarrow>
                   if \<not> OK apiResp then
                     (case GetError apiResp of
                        Some err \<Rightarrow> Inl err
                      | None \<Rightarrow>
                          Inl (ZaloErr (NewAPIError (ErrorCode apiResp)
                                          (Plain (Description_resp apiResp))
                                          (Sprintf ''API method: %s'' [ArgStr APIMethod]))))
                   else Inr apiResp))"

subsection \<open>The retry loop\<close>

text \<open>
  The surroundings of one call of \<open>DoRequest\<close>: what the HTTP stack does at attempt \<open>k\<close>,
  and whether, in the wait before attempt \<open>k\<close>, the \<open>select\<close> takes the branch of
  \<open>ctx.Done()\<close> rather than that of the timer. The result records, besides the two
  values returned, the number of attempts made and the delays slept.
\<close>

record request_env =
  outcome :: "nat \<Rightarrow> transport"
  ctxDone :: "nat \<Rightarrow> bool"
  ctxErr :: string

record call =
  response :: "APIResponse option"
  failure :: "error option"
  attempts :: nat
  sleeps :: "int list"

function DoRequest_loop ::
  "RetryConfig \<Rightarrow> string \<Rightarrow> request_env \<Rightarrow> int \<Rightarrow> error option \<Rightarrow> nat \<Rightarrow> int list \<Rightarrow> call"
where
  "DoRequest_loop retryConfig APIMethod env attempt lastErr n slept =
     (if attempt \<le> MaxRetries retryConfig then
        if attempt > 0 \<and> ctxDone env (nat attempt) then
          \<lparr>response = None,
           failure = Some (ZaloErr (NewNetworkError
                        (Sprintf ''request cancelled: %v'' [ArgStr (ctxErr env)]))),
           attempts = n, sleeps = slept\<rparr>
        else
          let slept' = (if attempt > 0
                        then slept @ [calculateBackoffDelay attempt retryConfig]
                        else slept)
          in case executeRequest APIMethod (outcome env (nat attempt)) of
               Inr resp \<Rightarrow>
                 \<lparr>response = Some resp, failure = None, attempts = Suc n, sleeps = slept'\<rparr>
             | Inl err \<Rightarrow>
                 if \<not> ShouldRetry retryConfig err then
                   \<lparr>response = None, failure = Some err, attempts = Suc n, sleeps = slept'\<rparr>
                 else if attempt \<ge> MaxRetries retryConfig then
                   \<lparr>response = None, failure = Some err, attempts = Suc n, sleeps = slept'\<rparr>
                 else
                   DoRequest_loop retryConfig APIMethod env (attempt + 1) (Some err)
                     (Suc n) slept'
      else \<lparr>response = None, failure = lastErr, attempts = n, sleeps = slept\<rparr>)"
  by pat_completeness auto
termination
  by (relation "measure (\<lambda>(retryConfig, APIMethod, env, attempt, lastErr, n, slept).
                  nat (MaxRetries retryConfig + 1 - attempt))") auto

declare DoRequest_loop.simps [simp del]

definition DoRequest :: "RetryConfig option \<Rightarrow> string \<Rightarrow> request_env \<Rightarrow> call" where
  "DoRequest config APIMethod env =
     (let retryConfig = (case config of None \<Rightarrow> DefaultRetryConfig | Some rc \<Rightarrow> rc)
      in DoRequest_loop retryConfig APIMethod env 0 None 0 [])"

subsection \<open>Sample surroundings of a call\<close>


text \<open>The same transport, with a context that is done when the first wait begins.\<close>

definition cancelled :: request_env where
  "cancelled = \<lparr>outcome = (\<lambda>_. DoFailed ''connection refused''), ctxDone = (\<lambda>_. True),
                ctxErr = ''context canceled''\<rparr>"

text \<open>
  A response with status 429 and the given value of \<open>Retry-After\<close>, and a response with
  status 200 and a success envelope.
\<close>

definition too_many_requests :: "string \<Rightarrow> HTTPResponse" where
  "too_many_requests retry_after =
     \<lparr>StatusCode = 429, Header = [(''Retry-After'', [retry_after])], Body = [],
      Unmarshalled = Inl ''unexpected end of JSON input''\<rparr>"

definition success_envelope :: APIResponse where
  "success_envelope = \<lparr>OK = True, Result = ''true'', ErrorCode = 0, Description_resp = []\<rparr>"

definition status_ok :: HTTPResponse where
  "status_ok = \<lparr>StatusCode = 200, Header = [], Body = [], Unmarshalled = Inr success_envelope\<rparr>"

text \<open>Status 429 at the first attempt, status 200 from the second on; no cancellation.\<close>

definition limited_once :: "string \<Rightarrow> request_env" where
  "limited_once retry_after =
     \<lparr>outcome = (\<lambda>k. if k = 0 then Received (too_many_requests retry_after)
                       else Received status_ok),
      ctxDone = (\<lambda>_. False), ctxErr = []\<rparr>"

section \<open>Webhook signature verification (package utils)\<close>

subsection \<open>SHA-256, HMAC and hexadecimal encoding (Go standard library)\<close>

text \<open>
  \<open>crypto/sha256\<close>, \<open>crypto/hmac\<close> and \<open>encoding/hex\<close> are not part of the repository;
  they are written out here after FIPS 180-4 and RFC 2104, so that the verifier is a
  function that can be evaluated. A Go string and a Go byte slice are both sequences of
  bytes: \<open>string\<close> holds them, and \<open>bytes_of\<close> gives the byte values.
\<close>

type_synonym byte = "8 word"
type_synonym word32 = "32 word"

text \<open>
  The round constants and the initial hash value of FIPS 180-4 (section 4.2.2 and 5.3.3),
  in decimal.
\<close>

definition K256 :: "word32 list" where
  "K256 =
    [1116352408, 1899447441, 3049323471, 3921009573, 961987163, 1508970993,
     2453635748, 2870763221, 3624381080, 310598401, 607225278, 1426881987,
     1925078388, 2162078206, 2614888103, 3248222580, 3835390401, 4022224774,
     264347078, 604807628, 770255983, 1249150122, 1555081692, 1996064986,
     2554220882, 2821834349, 2952996808, 3210313671, 3336571891, 3584528711,
     113926993, 338241895, 666307205, 773529912, 1294757372, 1396182291,
     1695183700, 1986661051, 2177026350, 2456956037, 2730485921, 2820302411,
     3259730800, 3345764771, 3516065817, 3600352804, 4094571909, 275423344,
     430227734, 506948616, 659060556, 883997877, 958139571, 1322822218,
     1537002063, 1747873779, 1955562222, 2024104815, 2227730452, 2361852424,
     2428436474, 2756734187, 3204031479, 3329325298]"

definition H256 :: "word32 \<times> word32 \<times> word32 \<times> word32 \<times> word32 \<times> word32 \<times> word32 \<times> word32" where
  "H256 = (1779033703, 3144134277, 1013904242, 2773480762,
           1359893119, 2600822924, 528734635, 1541459225)"

definition rotr :: "nat \<Rightarrow> word32 \<Rightarrow> word32" where
  "rotr n x = drop_bit n x OR push_bit (32 - n) x"

definition be32 :: "byte list \<Rightarrow> word32" where
  "be32 bs = foldl (\<lambda>acc b. push_bit 8 acc OR ucast b) 0 bs"

definition bytes_of_word32 :: "word32 \<Rightarrow> byte list" where
  "bytes_of_word32 w = [ucast (drop_bit 24 w), ucast (drop_bit 16 w), ucast (drop_bit 8 w), ucast w]"

definition bytes_of_len64 :: "nat \<Rightarrow> byte list" where
  "bytes_of_len64 n =
     (let w = (word_of_nat n :: 64 word)
      in map (\<lambda>i. ucast (drop_bit (8 * i) w)) [7, 6, 5, 4, 3, 2, 1, 0])"

definition sha256_pad :: "byte list \<Rightarrow> byte list" where
  "sha256_pad m =
     m @ [0x80] @ replicate ((64 - (length m + 9) mod 64) mod 64) 0 @ bytes_of_len64 (8 * length m)"

definition blocks :: "byte list \<Rightarrow> byte list list" where
  "blocks m = map (\<lambda>i. take 64 (drop (64 * i) m)) [0..<length m div 64]"

definition block_words :: "byte list \<Rightarrow> word32 list" where
  "block_words blk = map (\<lambda>j. be32 (take 4 (drop (4 * j) blk))) [0..<16]"

definition ssig0 :: "word32 \<Rightarrow> word32" where
  "ssig0 x = rotr 7 x XOR rotr 18 x XOR drop_bit 3 x"

definition ssig1 :: "word32 \<Rightarrow> word32" where
  "ssig1 x = rotr 17 x XOR rotr 19 x XOR drop_bit 10 x"

definition bsig0 :: "word32 \<Rightarrow> word32" where
  "bsig0 x = rotr 2 x XOR rotr 13 x XOR rotr 22 x"

definition bsig1 :: "word32 \<Rightarrow> word32" where
  "bsig1 x = rotr 6 x XOR rotr 11 x XOR rotr 25 x"

definition Ch :: "word32 \<Rightarrow> word32 \<Rightarrow> word32 \<Rightarrow> word32" where
  "Ch x y z = (x AND y) XOR (NOT x AND z)"

definition Maj :: "word32 \<Rightarrow> word32 \<Rightarrow> word32 \<Rightarrow> word32" where
  "Maj x y z = (x AND y) XOR (x AND z) XOR (y AND z)"

definition schedule_step :: "word32 list \<Rightarrow> word32 list" where
  "schedule_step ws =
     (let n = length ws
      in ws @ [ssig1 (ws ! (n - 2)) + ws ! (n - 7) + ssig0 (ws ! (n - 15)) + ws ! (n - 16)])"

definition schedule :: "byte list \<Rightarrow> word32 list" where
  "schedule blk = (schedule_step ^^ 48) (block_words blk)"

type_synonym sha_state =
  "word32 \<times> word32 \<times> word32 \<times> word32 \<times> word32 \<times> word32 \<times> word32 \<times> word32"

fun sha256_round :: "sha_state \<Rightarrow> word32 \<times> word32 \<Rightarrow> sha_state" where
  "sha256_round (a, b, c, d, e, f, g, h) (k, w) =
     (let t1 = h + bsig1 e + Ch e f g + k + w;
          t2 = bsig0 a + Maj a b c
      in (t1 + t2, a, b, c, d + t1, e, f, g))"

fun add_state :: "sha_state \<Rightarrow> sha_state \<Rightarrow> sha_state" where
  "add_state (a, b, c, d, e, f, g, h) (a', b', c', d', e', f', g', h') =
     (a + a', b + b', c + c', d + d', e + e', f + f', g + g', h + h')"

definition compress :: "sha_state \<Rightarrow> byte list \<Rightarrow> sha_state" where
  "compress hs blk = add_state hs (foldl sha256_round hs (zip K256 (schedule blk)))"

fun state_bytes :: "sha_state \<Rightarrow> byte list" where
  "state_bytes (a, b, c, d, e, f, g, h) = concat (map bytes_of_word32 [a, b, c, d, e, f, g, h])"

definition sha256 :: "byte list \<Rightarrow> byte list" where
  "sha256 m = state_bytes (foldl compress H256 (blocks (sha256_pad m)))"

definition hmac_sha256 :: "byte list \<Rightarrow> byte list \<Rightarrow> byte list" where
  "hmac_sha256 key m =
     (let k0 = (if length key > 64 then sha256 key else key);
          k = k0 @ replicate (64 - length k0) 0
      in sha256 (map (\<lambda>b. b XOR 0x5c) k @ sha256 (map (\<lambda>b. b XOR 0x36) k @ m)))"

definition hexdigit :: "nat \<Rightarrow> char" where
  "hexdigit n = ''0123456789abcdef'' ! n"

definition EncodeToString :: "byte list \<Rightarrow> string" where
  "EncodeToString bs = concat (map (\<lambda>b. [hexdigit (unat b div 16), hexdigit (unat b mod 16)]) bs)"

definition bytes_of :: "string \<Rightarrow> byte list" where
  "bytes_of s = map of_char s"

subsection \<open>\<open>strings.TrimSpace\<close>\<close>

text \<open>
  \<open>strings.TrimSpace\<close> removes the leading and the trailing white space, as Unicode
  defines it, from a UTF-8 string. The white-space runes are the ASCII ones (tab, line
  feed, vertical tab, form feed, carriage return, space), U+0085 and U+00A0 (two bytes),
  and U+1680, U+2000 to U+200A, U+2028, U+2029, U+202F, U+205F and U+3000 (three bytes).
  A byte sequence that is not one of these encodings is not white space.
\<close>

definition space1 :: "char \<Rightarrow> bool" where
  "space1 c = (let n = (of_char c :: nat) in (9 \<le> n \<and> n \<le> 13) \<or> n = 32)"

definition space2 :: "char \<Rightarrow> char \<Rightarrow> bool" where
  "space2 c d =
     (let m = (of_char c :: nat); n = (of_char d :: nat)
      in m = 0xC2 \<and> (n = 0x85 \<or> n = 0xA0))"

definition space3 :: "char \<Rightarrow> char \<Rightarrow> char \<Rightarrow> bool" where
  "space3 c d e =
     (let l = (of_char c :: nat); m = (of_char d :: nat); n = (of_char e :: nat)
      in (l = 0xE1 \<and> m = 0x9A \<and> n = 0x80)
         \<or> (l = 0xE2 \<and> m = 0x80
             \<and> ((0x80 \<le> n \<and> n \<le> 0x8A) \<or> n = 0xA8 \<or> n = 0xA9 \<or> n = 0xAF))
         \<or> (l = 0xE2 \<and> m = 0x81 \<and> n = 0x9F)
         \<or> (l = 0xE3 \<and> m = 0x80 \<and> n = 0x80))"

fun TrimLeft_space :: "string \<Rightarrow> string" where
  "TrimLeft_space [] = []"
| "TrimLeft_space [c] = (if space1 c then [] else [c])"
| "TrimLeft_space [c, d] =
     (if space1 c then TrimLeft_space [d]
      else if space2 c d then [] else [c, d])"
| "TrimLeft_space (c # d # e # s) =
     (if space1 c then TrimLeft_space (d # e # s)
      else if space2 c d then TrimLeft_space (e # s)
      else if space3 c d e then TrimLeft_space s
      else c # d # e # s)"

text \<open>The same from the end of the string; the argument is the string reversed.\<close>

fun TrimRight_space_rev :: "string \<Rightarrow> string" where
  "TrimRight_space_rev [] = []"
| "TrimRight_space_rev [c] = (if space1 c then [] else [c])"
| "TrimRight_space_rev [d, c] =
     (if space1 d then TrimRight_space_rev [c]
      else if space2 c d then [] else [d, c])"
| "TrimRight_space_rev (e # d # c # s) =
     (if space1 e then TrimRight_space_rev (d # c # s)
      else if space2 d e then TrimRight_space_rev (c # s)
      else if space3 c d e then TrimRight_space_rev s
      else e # d # c # s)"

definition TrimSpace :: "string \<Rightarrow> string" where
  "TrimSpace s = rev (TrimRight_space_rev (rev (TrimLeft_space s)))"

text \<open>An ASCII byte that is not white space: it belongs to no white-space rune.\<close>

definition plain :: "char \<Rightarrow> bool" where
  "plain c = ((of_char c :: nat) < 128 \<and> \<not> space1 c)"

subsection \<open>The two verification functions\<close>

datatype webhook_error = ErrInvalidSignature | ErrEmptySignature | ErrEmptySecret | ErrEmptyPayload

definition VerifyWebhookSignature :: "string \<Rightarrow> string \<Rightarrow> string \<Rightarrow> bool" where
  \<comment> \<open>\<open>hmac.Equal\<close> is true exactly for equal byte sequences\<close>
  "VerifyWebhookSignature payload signature secret =
     (if length payload = 0 \<or> TrimSpace signature = [] \<or> TrimSpace secret = [] then False
      else
        let expected = EncodeToString (hmac_sha256 (bytes_of secret) (bytes_of payload))
        in signature = expected)"

definition ValidateWebhookSignature :: "string \<Rightarrow> string \<Rightarrow> string \<Rightarrow> webhook_error option" where
  "ValidateWebhookSignature payload signature secret =
     (if length payload = 0 then Some ErrEmptyPayload
      else if TrimSpace signature = [] then Some ErrEmptySignature
      else if TrimSpace secret = [] then Some ErrEmptySecret
      else if \<not> VerifyWebhookSignature payload signature secret then Some ErrInvalidSignature
      else None)"

section \<open>Polling engine (package zalobot)\<close>

text \<open>
  \<open>UpdateID\<close> and the fields of \<open>UpdateConfig\<close> are Go \<open>int\<close> values, 64 bits wide on
  the usual platforms and compared as signed numbers; an update id comes from the server
  and \<open>UpdateID + 1\<close> wraps around. Attempt counters, status codes and durations above
  are plain integers: the code only counts them up from zero or compares them.
\<close>

type_synonym go_int = "64 word"

record Update =
  UpdateID :: go_int
  Message_update :: "string option"
  PostbackEvent :: "string option"
  UserAction :: "string option"

record UpdateConfig =
  Offset :: go_int
  Limit :: go_int
  Timeout :: go_int

definition Validate :: "UpdateConfig \<Rightarrow> UpdateConfig \<times> error option" where
  \<comment> \<open>the receiver is a pointer: the configuration is normalised in place\<close>
  "Validate uc =
     (let uc1 = (if Limit uc \<le>s 0 then uc\<lparr>Limit := 100\<rparr> else uc);
          uc2 = (if 100 <s Limit uc1 then uc1\<lparr>Limit := 100\<rparr> else uc1);
          uc3 = (if Timeout uc2 <s 0 then uc2\<lparr>Timeout := 0\<rparr> else uc2)
      in (uc3, None))"

subsection \<open>Engine state, start and stop\<close>

text \<open>
  A channel is a handle; \<open>make\<close> takes the next unused one. The state of a \<open>BotAPI\<close>
  that polling touches: the three fields guarded by \<open>pollingMu\<close>, the counter of the
  wait group, the handles already closed, and the configurations of the \<open>pollUpdates\<close>
  goroutines started so far. \<open>GetUpdatesChan\<close> and the locked part of \<open>StopPolling\<close> run
  under \<open>pollingMu\<close>, so each is one step on this state.
\<close>

type_synonym chan = nat

record BotAPI =
  isPolling :: bool
  stopPollingCh :: "chan option"
  updatesChan :: "chan option"
  pollingWg :: nat
  next_chan :: chan
  closed :: "chan set"
  started :: "UpdateConfig list"

definition New :: BotAPI where
  "New = \<lparr>isPolling = False, stopPollingCh = None, updatesChan = None, pollingWg = 0,
          next_chan = 0, closed = {}, started = []\<rparr>"

definition make_chan :: "BotAPI \<Rightarrow> chan \<times> BotAPI" where
  "make_chan b = (next_chan b, b\<lparr>next_chan := Suc (next_chan b)\<rparr>)"

definition GetUpdatesChan :: "UpdateConfig \<Rightarrow> BotAPI \<Rightarrow> chan \<times> BotAPI" where
  "GetUpdatesChan config0 b =
     (case Validate config0 of
        (config, Some err) \<Rightarrow>
          (let (ch, b1) = make_chan b in (ch, b1\<lparr>closed := insert ch (closed b1)\<rparr>))
      | (config, None) \<Rightarrow>
          if isPolling b \<and> updatesChan b \<noteq> None then (the (updatesChan b), b)
          else
            let b1 = (if updatesChan b = None
                      then (let (ch, b') = make_chan b in b'\<lparr>updatesChan := Some ch\<rparr>)
                      else b);
                b2 = (if stopPollingCh b1 = None
                      then (let (ch, b') = make_chan b1 in b'\<lparr>stopPollingCh := Some ch\<rparr>)
                      else b1);
                b3 = b2\<lparr>isPolling := True, pollingWg := Suc (pollingWg b2),
                        started := started b2 @ [config]\<rparr>
            in (the (updatesChan b3), b3))"

text \<open>
  \<open>StopPolling\<close>: the part under the lock, then \<open>pollingWg.Wait()\<close>, which returns once
  the counter is zero. The result \<open>None\<close> stands for a call that is parked there until the
  polling goroutines have finished.
\<close>

definition signal_stop :: "BotAPI \<Rightarrow> BotAPI" where
  "signal_stop b =
     (if isPolling b \<and> stopPollingCh b \<noteq> None
      then b\<lparr>closed := insert (the (stopPollingCh b)) (closed b), stopPollingCh := None\<rparr>
      else b)"

definition StopPolling :: "BotAPI \<Rightarrow> BotAPI option" where
  "StopPolling b = (let b1 = signal_stop b in if pollingWg b1 = 0 then Some b1 else None)"

text \<open>Several calls of \<open>GetUpdatesChan\<close>, in the order in which they get the lock.\<close>

fun GetUpdatesChan_calls :: "UpdateConfig list \<Rightarrow> BotAPI \<Rightarrow> chan list \<times> BotAPI" where
  "GetUpdatesChan_calls [] b = ([], b)"
| "GetUpdatesChan_calls (config # configs) b =
     (let (ch, b1) = GetUpdatesChan config b;
          (chs, b2) = GetUpdatesChan_calls configs b1
      in (ch # chs, b2))"

subsection \<open>The polling loop\<close>

text \<open>
  One pass through the body of the \<open>for\<close> loop of \<open>pollUpdates\<close> meets the following
  from outside: whether \<open>pollCtx.Done()\<close> is ready at the \<open>select\<close> that heads the pass;
  what \<open>GetUpdatesWithContext\<close> returns; whether \<open>pollCtx.Err()\<close> is set after a failed
  request; whether \<open>pollCtx.Done()\<close> wins a wait against the timer; and before which
  publish, if any, the \<open>select\<close> takes the branch of \<open>pollCtx.Done()\<close> instead of the send.
\<close>

record pass =
  done_at_head :: bool
  fetched :: "error + Update list"
  ctx_err :: bool
  done_in_wait :: bool
  done_at_send :: "nat option"

text \<open>
  The run of the loop so far: the local \<open>offset\<close>, the offsets of the requests issued, the
  updates sent on the channel, each with the offset after it, the waits started, and
  whether the function has returned.
\<close>

record run =
  offset :: go_int
  requested :: "go_int list"
  published :: "(Update \<times> go_int) list"
  waits :: "go_int list"
  returned :: bool

fun send_updates :: "go_int \<Rightarrow> nat option \<Rightarrow> Update list \<Rightarrow> go_int \<times> (Update \<times> go_int) list \<times> bool"
where
  "send_updates off stop [] = (off, [], False)"
| "send_updates off stop (update # updates) =
     (if stop = Some 0 then (off, [], True)
      else
        let off' = (if off \<le>s UpdateID update then UpdateID update + 1 else off);
            (off'', sent, stopped) = send_updates off' (map_option (\<lambda>k. k - 1) stop) updates
        in (off'', (update, off') # sent, stopped))"

definition poll_pass :: "UpdateConfig \<Rightarrow> go_int \<Rightarrow> pass \<Rightarrow> run \<Rightarrow> run" where
  "poll_pass config pollInterval p r =
     (if done_at_head p then r\<lparr>returned := True\<rparr>
      else
        let r1 = r\<lparr>requested := requested r @ [offset r]\<rparr>
        in case fetched p of
             Inl err \<Rightarrow>
               if ctx_err p then r1\<lparr>returned := True\<rparr>
               else if done_in_wait p then r1\<lparr>returned := True\<rparr>
               else r1\<lparr>waits := waits r1 @ [pollInterval]\<rparr>
           | Inr updates \<Rightarrow>
               let (off, sent, stopped) = send_updates (offset r1) (done_at_send p) updates;
                   r2 = r1\<lparr>offset := off, published := published r1 @ sent\<rparr>
               in if stopped then r2\<lparr>returned := True\<rparr>
                  else if length updates = 0 \<and> Timeout config = 0 then
                    (if done_in_wait p then r2\<lparr>returned := True\<rparr>
                     else r2\<lparr>waits := waits r2 @ [pollInterval]\<rparr>)
                  else r2)"

fun poll_loop :: "UpdateConfig \<Rightarrow> go_int \<Rightarrow> pass list \<Rightarrow> run \<Rightarrow> run" where
  "poll_loop config pollInterval [] r = r"
| "poll_loop config pollInterval (p # ps) r =
     (let r' = poll_pass config pollInterval p r
      in if returned r' then r' else poll_loop config pollInterval ps r')"

text \<open>
  \<open>pollUpdates\<close> on a finite script of passes. Every return of the loop first closes and
  clears \<open>updatesChan\<close> and clears \<open>isPolling\<close>; the deferred \<open>pollingWg.Done()\<close> follows.
  A script that ends before the loop returns leaves the goroutine running.
\<close>

definition teardown :: "BotAPI \<Rightarrow> BotAPI" where
  "teardown b =
     (let b1 = (case updatesChan b of
                  Some ch \<Rightarrow> b\<lparr>closed := insert ch (closed b), updatesChan := None\<rparr>
                | None \<Rightarrow> b)
      in b1\<lparr>isPolling := False, pollingWg := pollingWg b1 - 1\<rparr>)"

definition start_run :: "go_int \<Rightarrow> run" where
  "start_run off =
     \<lparr>offset = off, requested = [], published = [], waits = [], returned = False\<rparr>"

definition pollUpdates :: "UpdateConfig \<Rightarrow> pass list \<Rightarrow> BotAPI \<Rightarrow> run \<times> BotAPI" where
  "pollUpdates config script b =
     (let pollInterval = (if 0 <s Timeout config then Timeout config * 1000000000
                          else 1000000000);
          r = poll_loop config pollInterval script (start_run (Offset config))
      in (r, if returned r then teardown b else b))"

subsection \<open>States of the engine\<close>

text \<open>
  The states an engine can be in: the one made by \<open>New\<close>, and those that a call of
  \<open>GetUpdatesChan\<close>, the locked part of \<open>StopPolling\<close>, or the return of a polling loop
  leads to.
\<close>

inductive reachable :: "BotAPI \<Rightarrow> bool" where
  initial: "reachable New"
| start: "reachable b \<Longrightarrow> reachable (snd (GetUpdatesChan config b))"
| stop: "reachable b \<Longrightarrow> reachable (signal_stop b)"
| loop_exit: "reachable b \<Longrightarrow> reachable (teardown b)"

subsection \<open>Notions for the properties of the offset\<close>

definition MaxInt :: go_int where
  "MaxInt = 0x7FFFFFFFFFFFFFFF"

text \<open>No update that the script delivers carries the largest \<open>int\<close> as its id.\<close>

definition ids_below_MaxInt :: "pass list \<Rightarrow> bool" where
  "ids_below_MaxInt script =
     (\<forall>p \<in> set script. \<forall>us. fetched p = Inr us \<longrightarrow> (\<forall>u \<in> set us. UpdateID u \<noteq> MaxInt))"

text \<open>
  Along the published updates, each offset is the larger of the offset before and the
  update's id plus one, as signed numbers.
\<close>

fun advances :: "go_int \<Rightarrow> (Update \<times> go_int) list \<Rightarrow> bool" where
  "advances off [] = True"
| "advances off ((u, off') # ps) =
     (sint off' = max (sint off) (sint (UpdateID u) + 1) \<and> advances off' ps)"

definition last_offset :: "go_int \<Rightarrow> (Update \<times> go_int) list \<Rightarrow> go_int" where
  "last_offset off0 ps = last (off0 # map snd ps)"

definition consistent :: "go_int \<Rightarrow> run \<Rightarrow> bool" where
  "consistent off0 r = (advances off0 (published r) \<and> offset r = last_offset off0 (published r))"

subsection \<open>Sample inputs of the polling loop\<close>

definition text_update :: "go_int \<Rightarrow> Update" where
  "text_update i =
     \<lparr>UpdateID = i, Message_update = Some ''hello'', PostbackEvent = None, UserAction = None\<rparr>"

definition delivered :: "Update list \<Rightarrow> pass" where
  "delivered us =
     \<lparr>done_at_head = False, fetched = Inr us, ctx_err = False, done_in_wait = False,
      done_at_send = None\<rparr>"

definition failed_request :: pass where
  "failed_request =
     \<lparr>done_at_head = False, fetched = Inl (ZaloErr (NewNetworkError (Plain ''request failed''))),
      ctx_err = False, done_in_wait = False, done_at_send = None\<rparr>"

definition long_poll :: UpdateConfig where
  "long_poll = \<lparr>Offset = 0, Limit = 100, Timeout = 30\<rparr>"

section \<open>The retry decision on auth and validation errors\<close>

lemmas ErrorType_defs =
  ErrorTypeAPI_def ErrorTypeNetwork_def ErrorTypeAuth_def ErrorTypeValidation_def
  ErrorTypeRateLimit_def

lemma IsRetryable_auth_validation:
  "Type e = ErrorTypeAuth \<or> Type e = ErrorTypeValidation \<Longrightarrow> \<not> IsRetryable e"
  by (auto simp: IsRetryable_def ErrorType_defs)

text \<open>
  Claim C5, as amended. \<open>ShouldRetry\<close> first looks the error's type up in the configured
  \<open>RetryableErrors\<close>; only when the configuration lists neither the auth nor the
  validation type is an error of one of these two types never retried.
\<close>

theorem ShouldRetry_auth_validation:
  assumes "ErrorTypeAuth \<notin> set (RetryableErrors rc)"
    and "ErrorTypeValidation \<notin> set (RetryableErrors rc)"
    and "Type e = ErrorTypeAuth \<or> Type e = ErrorTypeValidation"
  shows "\<not> ShouldRetry rc (ZaloErr e)"
  using assms IsRetryable_auth_validation [of e]
  by (auto simp: ShouldRetry_def)

theorem ShouldRetry_auth_validation_witness:
  "ErrorTypeAuth \<notin> set (RetryableErrors DefaultRetryConfig)
   \<and> ErrorTypeValidation \<notin> set (RetryableErrors DefaultRetryConfig)
   \<and> Type (NewAuthError (Plain ''denied'')) = ErrorTypeAuth
   \<and> \<not> ShouldRetry DefaultRetryConfig (ZaloErr (NewAuthError (Plain ''denied'')))"
  using ShouldRetry_auth_validation [of DefaultRetryConfig "NewAuthError (Plain ''denied'')"]
  by (simp add: DefaultRetryConfig_def NewAuthError_def ErrorType_defs)

text \<open>
  Claim C5 as stated fails: a configuration that lists the auth type as retryable makes
  \<open>ShouldRetry\<close> answer true for an auth error.
\<close>

theorem ShouldRetry_auth_counterexample:
  "ShouldRetry (DefaultRetryConfig\<lparr>RetryableErrors := [ErrorTypeNetwork, ErrorTypeAuth]\<rparr>)
     (ZaloErr (NewAuthError (Plain ''denied'')))"
  by (simp add: ShouldRetry_def NewAuthError_def)

section \<open>Backoff delays\<close>

lemma floor_numeral_div: "\<lfloor>numeral a / numeral b :: rat\<rfloor> = numeral a div numeral b"
  using floor_divide_of_int_eq [of "numeral a" "numeral b", where ?'a = rat] by simp

lemmas delay_eval =
  NextDelay_def calculateBackoffDelay_def DefaultRetryConfig_def Duration_of_float_def
  Second_def floor_numeral_div












text \<open>Neither is the sequence non-decreasing for a factor below 1.\<close>

lemma NextDelay_decreasing_example:
  "NextDelay (DefaultRetryConfig\<lparr>BackoffFactor := 1 / 2\<rparr>) 1
     < NextDelay (DefaultRetryConfig\<lparr>BackoffFactor := 1 / 2\<rparr>) 0"
  by (simp add: delay_eval)

subsection \<open>The two implementations of the delay\<close>








text \<open>
  Nor is the common value at attempt 0 the minimum of the claim when the initial delay
  is above the maximal one.
\<close>

lemma delay_at_zero_not_capped:
  "NextDelay (DefaultRetryConfig\<lparr>InitialDelay := 60 * Second\<rparr>) 0 = 60 * Second
   \<and> calculateBackoffDelay 0 (DefaultRetryConfig\<lparr>InitialDelay := 60 * Second\<rparr>) = 60 * Second
   \<and> min (60 * Second) (MaxDelay (DefaultRetryConfig\<lparr>InitialDelay := 60 * Second\<rparr>)) = 30 * Second"
  by (simp add: delay_eval)

section \<open>The retry loop of the request executor\<close>







text \<open>
  A context that is done during the wait before the first retry ends the call with an
  error made in \<open>DoRequest\<close> itself, not with the error of the attempt made.
\<close>

lemma DoRequest_cancelled_in_wait:
  "DoRequest None ''getMe'' cancelled
     = \<lparr>response = None,
        failure = Some (ZaloErr (NewNetworkError
                    (Sprintf ''request cancelled: %v'' [ArgStr ''context canceled'']))),
        attempts = 1, sleeps = []\<rparr>"
  by (simp add: DoRequest_def DoRequest_loop.simps [of _ _ _ 0] DoRequest_loop.simps [of _ _ _ 1]
      DefaultRetryConfig_def executeRequest_def cancelled_def ShouldRetry_def NewNetworkError_def
      ErrorType_defs)

subsection \<open>A rate-limited attempt followed by a success\<close>

lemma ShouldRetry_rate_limit_default:
  "ShouldRetry DefaultRetryConfig (ZaloErr (NewRateLimitError msg))"
  by (simp add: ShouldRetry_def DefaultRetryConfig_def NewRateLimitError_def)



lemma calculateBackoffDelay_default_1: "calculateBackoffDelay 1 DefaultRetryConfig = 2 * Second"
  by (simp add: delay_eval)




text \<open>
  The 2 s are the backoff delay \<open>InitialDelay \<times> BackoffFactor ^ 1\<close>. The value of
  \<open>Retry-After\<close> reaches the text of the error only: with \<open>Retry-After: 5\<close> the wait before
  the second attempt is the same 2 s.
\<close>

lemma DoRequest_Retry_After_5:
  "sleeps (DoRequest None ''sendMessage'' (limited_once ''5'')) = [2 * Second]
   \<and> attempts (DoRequest None ''sendMessage'' (limited_once ''5'')) = 2
   \<and> RetryAfter (ParseRateLimitHeaders (Header (too_many_requests ''5''))) = 5 * Second"
proof -
  have "executeRequest ''sendMessage'' (outcome (limited_once ''5'') 0)
      = Inl (ZaloErr (NewRateLimitError
               (Sprintf ''rate limit exceeded, retry after %s'' [ArgDuration (5 * Second)])))"
    by (simp add: executeRequest_def limited_once_def too_many_requests_def
        ParseRateLimitHeaders_def header_values_def first_parsed_def Atoi_def ParseInt64_def
        digit_val_def int64_mul_def Second_def)
  moreover have "executeRequest ''sendMessage'' (outcome (limited_once ''5'') 1) = Inr success_envelope"
    by (simp add: executeRequest_def limited_once_def status_ok_def success_envelope_def
        ParseRateLimitHeaders_def header_values_def first_parsed_def)
  moreover have "\<not> ctxDone (limited_once ''5'') 1" by (simp add: limited_once_def)
  ultimately have "DoRequest None ''sendMessage'' (limited_once ''5'')
      = \<lparr>response = Some success_envelope, failure = None, attempts = 2, sleeps = [2 * Second]\<rparr>"
    by (simp add: DoRequest_def DoRequest_loop.simps [of _ _ _ 0] DoRequest_loop.simps [of _ _ _ 1]
        ShouldRetry_rate_limit_default calculateBackoffDelay_default_1)
       (simp add: DefaultRetryConfig_def)
  moreover have "RetryAfter (ParseRateLimitHeaders (Header (too_many_requests ''5''))) = 5 * Second"
    by (simp add: too_many_requests_def ParseRateLimitHeaders_def header_values_def
        first_parsed_def Atoi_def ParseInt64_def digit_val_def int64_mul_def Second_def)
  ultimately show ?thesis by simp
qed

section \<open>The polling engine\<close>

subsection \<open>The offset\<close>

lemma sint_MaxInt: "sint MaxInt = 2 ^ 63 - 1"
  by (simp add: MaxInt_def)

lemma sint_succ:
  fixes x :: go_int
  assumes "x \<noteq> MaxInt"
  shows "sint (x + 1) = sint x + 1"
proof -
  have "sint x \<noteq> sint MaxInt" using assms by (auto dest: signed_word_eqI)
  moreover have "sint x < 2 ^ 63" using sint_lt [of x] by simp
  ultimately have up: "sint x + 1 < 2 ^ 63" by (simp add: sint_MaxInt)
  have lo: "- (2 ^ 63) \<le> sint x + 1" using sint_ge [of x] by simp
  have "sint (x + 1) = signed_take_bit 63 (sint x + 1)"
    by (simp add: sint_word_ariths)
  then show ?thesis using signed_take_bit_int_eq_self [OF lo up] by simp
qed

lemma advances_append:
  "advances off (ps @ qs) \<longleftrightarrow> advances off ps \<and> advances (last (off # map snd ps)) qs"
  by (induction ps arbitrary: off) auto

lemma advances_sorted: "advances off ps \<Longrightarrow> sorted (map sint (off # map snd ps))"
proof (induction ps arbitrary: off)
  case Nil
  then show ?case by simp
next
  case (Cons p ps)
  obtain u off' where p: "p = (u, off')" by (cases p)
  with Cons.prems have step: "sint off \<le> sint off'" and rest: "advances off' ps" by auto
  from Cons.IH [OF rest] have "sorted (map sint (off' # map snd ps))" .
  with step p show ?case by auto
qed

lemma send_updates_advances:
  assumes "\<forall>u \<in> set updates. UpdateID u \<noteq> MaxInt"
    and "send_updates off stop updates = (off', sent, stopped)"
  shows "advances off sent \<and> off' = last (off # map snd sent)"
  using assms
proof (induction updates arbitrary: off stop off' sent stopped)
  case Nil
  then show ?case by simp
next
  case (Cons u us)
  show ?case
  proof (cases "stop = Some 0")
    case True
    with Cons.prems show ?thesis by simp
  next
    case False
    let ?o = "if off \<le>s UpdateID u then UpdateID u + 1 else off"
    obtain o2 s2 st2 where rec: "send_updates ?o (map_option (\<lambda>k. k - 1) stop) us = (o2, s2, st2)"
      by (metis prod_cases3)
    with Cons.prems(2) False have res: "off' = o2" "sent = (u, ?o) # s2" "stopped = st2"
      by (simp_all add: Let_def)
    have ih: "advances ?o s2 \<and> o2 = last (?o # map snd s2)"
      using Cons.IH [OF _ rec] Cons.prems(1) by simp
    have "UpdateID u \<noteq> MaxInt" using Cons.prems(1) by simp
    then have "sint ?o = max (sint off) (sint (UpdateID u) + 1)"
      by (simp add: sint_succ word_sle_eq)
    with ih res show ?thesis by simp
  qed
qed


lemma last_offset_append:
  "last_offset off0 (ps @ qs) = last_offset (last_offset off0 ps) qs"
  unfolding last_offset_def by (cases qs rule: rev_cases) (auto simp: last_map)

lemma poll_pass_fields:
  "offset (poll_pass config pollInterval p r)
     = (if done_at_head p then offset r
        else case fetched p of
               Inl err \<Rightarrow> offset r
             | Inr us \<Rightarrow> fst (send_updates (offset r) (done_at_send p) us))"
  "published (poll_pass config pollInterval p r)
     = (if done_at_head p then published r
        else case fetched p of
               Inl err \<Rightarrow> published r
             | Inr us \<Rightarrow> published r @ fst (snd (send_updates (offset r) (done_at_send p) us)))"
  by (auto simp: poll_pass_def Let_def split: sum.splits prod.splits)

lemma poll_pass_consistent:
  assumes "\<forall>us. fetched p = Inr us \<longrightarrow> (\<forall>u \<in> set us. UpdateID u \<noteq> MaxInt)"
    and "consistent off0 r"
  shows "consistent off0 (poll_pass config pollInterval p r)"
proof (cases "fetched p")
  case (Inl err)
  with assms(2) show ?thesis by (simp add: poll_pass_fields consistent_def)
next
  case (Inr us)
  obtain off' sent stopped where su: "send_updates (offset r) (done_at_send p) us = (off', sent, stopped)"
    by (metis prod_cases3)
  have ok: "\<forall>u \<in> set us. UpdateID u \<noteq> MaxInt" using assms(1) Inr by simp
  have adv: "advances (offset r) sent" "off' = last_offset (offset r) sent"
    using send_updates_advances [OF ok su] by (simp_all add: last_offset_def)
  have 1: "advances off0 (published r @ sent)"
    using assms(2) adv(1) by (simp add: advances_append consistent_def last_offset_def)
  have 2: "off' = last_offset off0 (published r @ sent)"
    using assms(2) adv(2) by (simp add: last_offset_append consistent_def)
  show ?thesis
  proof (cases "done_at_head p")
    case True
    with assms(2) show ?thesis by (simp add: poll_pass_fields consistent_def)
  next
    case False
    with Inr su 1 2 show ?thesis by (simp add: poll_pass_fields consistent_def)
  qed
qed

lemma poll_loop_consistent:
  assumes "ids_below_MaxInt script" and "consistent off0 r"
  shows "consistent off0 (poll_loop config pollInterval script r)"
  using assms
proof (induction script arbitrary: r)
  case Nil
  then show ?case by simp
next
  case (Cons p ps)
  have "consistent off0 (poll_pass config pollInterval p r)"
    using poll_pass_consistent [OF _ Cons.prems(2)] Cons.prems(1)
    by (simp add: ids_below_MaxInt_def)
  moreover have "ids_below_MaxInt ps" using Cons.prems(1) by (simp add: ids_below_MaxInt_def)
  ultimately show ?case using Cons.IH by (simp add: Let_def)
qed

lemma pollUpdates_consistent:
  assumes "ids_below_MaxInt script"
  shows "consistent (Offset config) (fst (pollUpdates config script b))"
  using poll_loop_consistent [OF assms, of "Offset config"]
  by (simp add: pollUpdates_def Let_def consistent_def last_offset_def start_run_def)

lemma poll_pass_failed: "fetched p = Inl err \<Longrightarrow> offset (poll_pass config pollInterval p r) = offset r"
  by (simp add: poll_pass_def Let_def)

lemma send_3557:
  fixes off :: go_int
  assumes "sint off \<le> 3" and "map UpdateID us = [3, 5, 5, 7]"
  shows "fst (send_updates off None us) = 8"
proof -
  obtain a b c d where us: "us = [a, b, c, d]"
    and ids: "UpdateID a = 3" "UpdateID b = 5" "UpdateID c = 5" "UpdateID d = 7"
    using assms(2) by (auto simp: map_eq_Cons_conv)
  have "off \<le>s 3" using assms(1) by (simp add: word_sle_eq)
  then show ?thesis
    by (simp add: us ids Let_def word_sle_eq)
qed

text \<open>
  Claim C1, as amended. As long as no update carries the largest \<open>int\<close> as its id, each
  published update moves the offset to the larger of the offset and the id plus one, so
  the offsets along the published updates never decrease, and the loop's offset is the
  last of them. A batch with the ids 3, 5, 5, 7, published in full from an offset of at
  most 3, leaves the offset at 8. A pass whose request fails leaves the offset as it was.
\<close>

theorem pollUpdates_offset:
  assumes "ids_below_MaxInt script"
  shows "advances (Offset config) (published (fst (pollUpdates config script b)))
    \<and> sorted (map sint (Offset config # map snd (published (fst (pollUpdates config script b)))))
    \<and> offset (fst (pollUpdates config script b))
        = last (Offset config # map snd (published (fst (pollUpdates config script b))))
    \<and> (\<not> done_at_head p \<and> fetched p = Inr us \<and> map UpdateID us = [3, 5, 5, 7]
         \<and> done_at_send p = None \<and> sint (offset r) \<le> 3
       \<longrightarrow> offset (poll_pass config pollInterval p r) = 8)
    \<and> (fetched q = Inl err \<longrightarrow> offset (poll_pass config pollInterval q r) = offset r)"
proof -
  have c: "consistent (Offset config) (fst (pollUpdates config script b))"
    using assms by (rule pollUpdates_consistent)
  then have p1: "advances (Offset config) (published (fst (pollUpdates config script b)))"
    by (simp add: consistent_def)
  then have p2:
    "sorted (map sint (Offset config # map snd (published (fst (pollUpdates config script b)))))"
    by (rule advances_sorted)
  have p3: "offset (fst (pollUpdates config script b))
        = last (Offset config # map snd (published (fst (pollUpdates config script b))))"
    using c by (simp add: consistent_def last_offset_def)
  have p4: "\<not> done_at_head p \<and> fetched p = Inr us \<and> map UpdateID us = [3, 5, 5, 7]
         \<and> done_at_send p = None \<and> sint (offset r) \<le> 3
       \<longrightarrow> offset (poll_pass config pollInterval p r) = 8"
    using send_3557 [of "offset r" us] by (simp add: poll_pass_fields)
  have p5: "fetched q = Inl err \<longrightarrow> offset (poll_pass config pollInterval q r) = offset r"
    by (simp add: poll_pass_failed)
  from p1 p2 p3 p4 p5 show ?thesis by (intro conjI)
qed

lemma ids_below_MaxInt_sample:
  "ids_below_MaxInt [failed_request, delivered (map text_update [3, 5, 5, 7])]"
  by (simp add: ids_below_MaxInt_def failed_request_def delivered_def text_update_def MaxInt_def)

theorem pollUpdates_offset_witness:
  "ids_below_MaxInt [failed_request, delivered (map text_update [3, 5, 5, 7])]
   \<and> sorted (map sint (Offset long_poll # map snd (published (fst (pollUpdates long_poll
         [failed_request, delivered (map text_update [3, 5, 5, 7])] New)))))
   \<and> \<not> done_at_head (delivered (map text_update [3, 5, 5, 7]))
   \<and> fetched (delivered (map text_update [3, 5, 5, 7])) = Inr (map text_update [3, 5, 5, 7])
   \<and> map UpdateID (map text_update [3, 5, 5, 7]) = [3, 5, 5, 7]
   \<and> done_at_send (delivered (map text_update [3, 5, 5, 7])) = None
   \<and> sint (offset (start_run 0)) \<le> 3
   \<and> offset (poll_pass long_poll 30000000000 (delivered (map text_update [3, 5, 5, 7]))
        (start_run 0)) = 8
   \<and> fetched failed_request = Inl (ZaloErr (NewNetworkError (Plain ''request failed'')))
   \<and> offset (poll_pass long_poll 30000000000 failed_request (start_run 0)) = offset (start_run 0)"
  using pollUpdates_offset [OF ids_below_MaxInt_sample, of long_poll New
      "delivered (map text_update [3, 5, 5, 7])" "map text_update [3, 5, 5, 7]" "start_run 0"
      30000000000 failed_request "ZaloErr (NewNetworkError (Plain ''request failed''))"]
    ids_below_MaxInt_sample
  by (simp add: delivered_def failed_request_def text_update_def start_run_def)

text \<open>The same run, evaluated: the offsets after the four updates are 4, 6, 6 and 8.\<close>

lemma pollUpdates_3557:
  "map (sint \<circ> snd) (published (fst (pollUpdates long_poll
       [failed_request, delivered (map text_update [3, 5, 5, 7])] New))) = [4, 6, 6, 8]
   \<and> offset (fst (pollUpdates long_poll
       [failed_request, delivered (map text_update [3, 5, 5, 7])] New)) = 8
   \<and> requested (fst (pollUpdates long_poll
       [failed_request, delivered (map text_update [3, 5, 5, 7])] New)) = [0, 0]"
  by (simp add: pollUpdates_def poll_pass_def long_poll_def failed_request_def delivered_def
      text_update_def start_run_def Let_def word_sle_eq word_sless_alt)

text \<open>
  Claim C1 as stated fails: an update whose id is the largest \<open>int\<close> passes the test
  \<open>UpdateID >= offset\<close>, and \<open>UpdateID + 1\<close> wraps around to the smallest \<open>int\<close>; the
  offset falls from 0 to \<open>- 2 ^ 63\<close>.
\<close>

theorem pollUpdates_offset_counterexample:
  "sint (Offset long_poll) = 0
   \<and> sint (offset (fst (pollUpdates long_poll [delivered [text_update MaxInt]] New))) = - (2 ^ 63)"
  by (simp add: pollUpdates_def poll_pass_def long_poll_def delivered_def
      text_update_def start_run_def MaxInt_def Let_def word_sle_eq word_sless_alt)

subsection \<open>Start and stop\<close>

lemma Validate_ok: "snd (Validate config) = None"
  by (simp add: Validate_def Let_def)

lemma GetUpdatesChan_polling:
  "isPolling b \<Longrightarrow> updatesChan b = Some ch \<Longrightarrow> GetUpdatesChan config b = (ch, b)"
  by (simp add: GetUpdatesChan_def Validate_def Let_def)

lemma GetUpdatesChan_result:
  assumes "GetUpdatesChan config b = (ch, b1)"
  shows "isPolling b1 \<and> updatesChan b1 = Some ch"
  using assms
  by (auto simp: GetUpdatesChan_def Validate_def make_chan_def Let_def split: if_splits)

lemma GetUpdatesChan_started:
  assumes "\<not> isPolling b" and "GetUpdatesChan config b = (ch, b1)"
  shows "length (started b1) = Suc (length (started b))"
  using assms
  by (auto simp: GetUpdatesChan_def Validate_def make_chan_def Let_def split: if_splits)

lemma reachable_channel: "reachable b \<Longrightarrow> isPolling b \<Longrightarrow> updatesChan b \<noteq> None"
proof (induction rule: reachable.induct)
  case initial
  then show ?case by (simp add: New_def)
next
  case (start b config)
  obtain ch b1 where "GetUpdatesChan config b = (ch, b1)" by (cases "GetUpdatesChan config b")
  then show ?case using GetUpdatesChan_result [of config b ch b1] by simp
next
  case (stop b)
  then show ?case by (simp add: signal_stop_def split: if_splits)
next
  case (loop_exit b)
  then show ?case by (simp add: teardown_def Let_def split: option.splits)
qed

lemma GetUpdatesChan_calls_polling:
  assumes "isPolling b" and "updatesChan b = Some ch"
  shows "GetUpdatesChan_calls configs b = (replicate (length configs) ch, b)"
  using assms by (induction configs) (simp_all add: GetUpdatesChan_polling)

text \<open>
  Claim C2. A call of \<open>GetUpdatesChan\<close> on an engine that is polling returns the channel
  already there and changes nothing: no channel is made and no goroutine started. Every
  state an engine can reach has a channel while it is polling. The engine is polling
  after any call, so a second call returns the channel of the first. Calls that compete for \<open>pollingMu\<close> run one after the other: from an engine that
  is not polling, all of them return the same channel, and one loop is started.
\<close>

theorem GetUpdatesChan_idempotent:
  "(reachable a \<and> isPolling a \<longrightarrow>
      updatesChan a \<noteq> None \<and> GetUpdatesChan config a = (the (updatesChan a), a))
   \<and> (isPolling b \<and> updatesChan b = Some ch \<longrightarrow> GetUpdatesChan config b = (ch, b))
   \<and> (GetUpdatesChan c e = (h, e') \<longrightarrow> GetUpdatesChan c' e' = (h, e'))
   \<and> (\<not> isPolling i \<and> GetUpdatesChan_calls (d # ds) i = (hs, i')
        \<longrightarrow> hs = replicate (Suc (length ds)) (hd hs)
            \<and> length (started i') = Suc (length (started i)))"
proof -
  have third: "hs = replicate (Suc (length ds)) (hd hs)
            \<and> length (started i') = Suc (length (started i))"
    if idle: "\<not> isPolling i" and calls: "GetUpdatesChan_calls (d # ds) i = (hs, i')"
  proof -
    obtain x j where first: "GetUpdatesChan d i = (x, j)"
      by (cases "GetUpdatesChan d i")
    have rest: "GetUpdatesChan_calls ds j = (replicate (length ds) x, j)"
      using GetUpdatesChan_result [OF first] by (simp add: GetUpdatesChan_calls_polling)
    from calls first rest have "hs = x # replicate (length ds) x" "i' = j" by simp_all
    then show ?thesis using GetUpdatesChan_started [OF idle first] by simp
  qed
  have zeroth: "updatesChan a \<noteq> None \<and> GetUpdatesChan config a = (the (updatesChan a), a)"
    if "reachable a" "isPolling a"
    using reachable_channel [OF that] that(2) by (auto simp: GetUpdatesChan_polling)
  show ?thesis
    using GetUpdatesChan_polling [of b ch config] GetUpdatesChan_result [of c e h e']
      GetUpdatesChan_polling [of e' h c'] third zeroth
    by blast
qed

theorem GetUpdatesChan_idempotent_witness:
  "reachable (snd (GetUpdatesChan long_poll New))
   \<and> GetUpdatesChan long_poll New = (0, snd (GetUpdatesChan long_poll New))
   \<and> isPolling (snd (GetUpdatesChan long_poll New))
   \<and> updatesChan (snd (GetUpdatesChan long_poll New)) = Some 0
   \<and> GetUpdatesChan (long_poll\<lparr>Timeout := 0\<rparr>) (snd (GetUpdatesChan long_poll New))
       = (0, snd (GetUpdatesChan long_poll New))
   \<and> \<not> isPolling New
   \<and> GetUpdatesChan_calls [long_poll, long_poll\<lparr>Timeout := 0\<rparr>] New
       = ([0, 0], snd (GetUpdatesChan long_poll New))
   \<and> length (started (snd (GetUpdatesChan long_poll New))) = Suc (length (started New))"
proof -
  define b1 where "b1 = snd (GetUpdatesChan long_poll New)"
  have "fst (GetUpdatesChan long_poll New) = 0"
    by (simp add: GetUpdatesChan_def Validate_def make_chan_def New_def long_poll_def Let_def
        word_sle_eq word_sless_alt)
  then have first: "GetUpdatesChan long_poll New = (0, b1)"
    by (simp add: b1_def prod_eq_iff)
  have idle: "\<not> isPolling New" by (simp add: New_def)
  have state: "isPolling b1" "updatesChan b1 = Some 0"
    using GetUpdatesChan_result [OF first] by simp_all
  have calls: "GetUpdatesChan_calls [long_poll, long_poll\<lparr>Timeout := 0\<rparr>] New = ([0, 0], b1)"
    using state by (simp add: first GetUpdatesChan_polling)
  have reach: "reachable b1" unfolding b1_def by (rule reachable.start) (rule reachable.initial)
  from GetUpdatesChan_idempotent [where a = b1 and b = b1 and ch = 0
      and config = "long_poll\<lparr>Timeout := 0\<rparr>"
      and c = long_poll and e = New and h = 0 and e' = b1 and c' = "long_poll\<lparr>Timeout := 0\<rparr>"
      and i = New and d = long_poll and ds = "[long_poll\<lparr>Timeout := 0\<rparr>]" and hs = "[0, 0]"
      and i' = b1]
    first idle state calls reach
  have "GetUpdatesChan (long_poll\<lparr>Timeout := 0\<rparr>) b1 = (0, b1)
      \<and> length (started b1) = Suc (length (started New))"
    by simp
  with first idle state calls reach show ?thesis unfolding b1_def by simp
qed

lemma reachable_wait_group:
  "reachable b \<Longrightarrow> pollingWg b = (if isPolling b then 1 else 0)"
proof (induction rule: reachable.induct)
  case initial
  then show ?case by (simp add: New_def)
next
  case (start b config)
  show ?case
  proof (cases "isPolling b")
    case True
    then obtain ch where "updatesChan b = Some ch" using reachable_channel [OF start.hyps] by auto
    with True start.IH show ?thesis by (simp add: GetUpdatesChan_polling)
  next
    case False
    with start.IH show ?thesis
      by (simp add: GetUpdatesChan_def Validate_def make_chan_def Let_def)
  qed
next
  case (stop b)
  then show ?case by (simp add: signal_stop_def)
next
  case (loop_exit b)
  then show ?case by (simp add: teardown_def Let_def split: option.splits)
qed

text \<open>
  Claim C8. On an engine that is not polling, the locked part of \<open>StopPolling\<close> closes
  nothing and changes no field; with no polling goroutine left, \<open>pollingWg.Wait()\<close>
  returns at once, so the call returns with the state as it was. Every state an engine
  can reach in which it is not polling is of this kind, the one made by \<open>New\<close> among them.
\<close>

theorem StopPolling_idle:
  "(\<not> isPolling b \<longrightarrow> signal_stop b = b)
   \<and> (\<not> isPolling b \<and> pollingWg b = 0 \<longrightarrow> StopPolling b = Some b)
   \<and> (reachable a \<and> \<not> isPolling a \<longrightarrow> StopPolling a = Some a)"
  using reachable_wait_group [of a] by (simp add: StopPolling_def signal_stop_def)

theorem StopPolling_idle_witness:
  "\<not> isPolling New \<and> pollingWg New = 0 \<and> reachable New
   \<and> signal_stop New = New \<and> StopPolling New = Some New \<and> updatesChan New = None"
  using StopPolling_idle [of New New] reachable.initial by (simp add: New_def)

subsection \<open>Return of the loop\<close>

text \<open>
  Where a \<open>select\<close> of the loop takes the branch of \<open>pollCtx.Done()\<close>, the function
  returns, and with the return the channel is closed and cleared and \<open>isPolling\<close> is
  false. That the branch is taken once the context is cancelled is the behaviour of
  \<open>select\<close> and of the scheduler, which the script of passes stands for.
\<close>

lemma send_updates_stopped:
  "k < length updates \<Longrightarrow> send_updates off (Some k) updates = (off', sent, stopped)
     \<Longrightarrow> stopped \<and> length sent = k"
proof (induction updates arbitrary: off k off' sent stopped)
  case Nil
  then show ?case by simp
next
  case (Cons u us)
  show ?case
  proof (cases k)
    case 0
    with Cons.prems show ?thesis by simp
  next
    case (Suc j)
    let ?o = "if off \<le>s UpdateID u then UpdateID u + 1 else off"
    obtain o2 s2 st2 where rec: "send_updates ?o (Some j) us = (o2, s2, st2)"
      by (metis prod_cases3)
    with Cons.prems(2) Suc have "sent = (u, ?o) # s2" "stopped = st2" by (simp_all add: Let_def)
    moreover have "st2 \<and> length s2 = j" using Cons.IH [OF _ rec] Cons.prems(1) Suc by simp
    ultimately show ?thesis using Suc by simp
  qed
qed

lemma poll_pass_returns:
  assumes "done_at_head p
      \<or> (\<exists>err. fetched p = Inl err) \<and> (ctx_err p \<or> done_in_wait p)
      \<or> (\<exists>us k. fetched p = Inr us \<and> done_at_send p = Some k \<and> k < length us)
      \<or> fetched p = Inr [] \<and> Timeout config = 0 \<and> done_in_wait p"
  shows "returned (poll_pass config pollInterval p r)"
proof (cases "done_at_head p")
  case True
  then show ?thesis by (simp add: poll_pass_def)
next
  case False
  with assms consider
      (failed) err where "fetched p = Inl err" "ctx_err p \<or> done_in_wait p"
    | (send) us k where "fetched p = Inr us" "done_at_send p = Some k" "k < length us"
    | (idle) "fetched p = Inr []" "Timeout config = 0" "done_in_wait p"
    by blast
  then show ?thesis
  proof cases
    case failed
    with False show ?thesis by (auto simp: poll_pass_def Let_def)
  next
    case send
    obtain off' sent stopped
      where su: "send_updates (offset r) (Some k) us = (off', sent, stopped)"
      by (metis prod_cases3)
    then have stopped using send_updates_stopped [OF send(3) su] by simp
    with False send su show ?thesis by (simp add: poll_pass_def Let_def)
  next
    case idle
    with False show ?thesis by (simp add: poll_pass_def Let_def)
  qed
qed

lemma pollUpdates_teardown:
  assumes "returned (fst (pollUpdates config script b))" and "updatesChan b = Some ch"
  shows "\<not> isPolling (snd (pollUpdates config script b))
    \<and> updatesChan (snd (pollUpdates config script b)) = None
    \<and> ch \<in> closed (snd (pollUpdates config script b))"
  using assms by (simp add: pollUpdates_def teardown_def Let_def)

section \<open>Webhook signature verification\<close>

lemma plain_not_space:
  "plain c \<Longrightarrow> \<not> space1 c"
  "plain c \<Longrightarrow> \<not> space2 c d" "plain d \<Longrightarrow> \<not> space2 c d"
  "plain c \<Longrightarrow> \<not> space3 c d e" "plain d \<Longrightarrow> \<not> space3 c d e" "plain e \<Longrightarrow> \<not> space3 c d e"
  by (auto simp: plain_def space2_def space3_def Let_def)

lemma TrimLeft_space_keeps:
  "x \<in> set s \<Longrightarrow> plain x \<Longrightarrow> x \<in> set (TrimLeft_space s)"
  by (induction s rule: TrimLeft_space.induct) (auto dest: plain_not_space)

lemma TrimRight_space_rev_keeps:
  "x \<in> set s \<Longrightarrow> plain x \<Longrightarrow> x \<in> set (TrimRight_space_rev s)"
  by (induction s rule: TrimRight_space_rev.induct) (auto dest: plain_not_space)

lemma TrimSpace_keeps: "x \<in> set s \<Longrightarrow> plain x \<Longrightarrow> x \<in> set (TrimSpace s)"
  by (simp add: TrimSpace_def TrimLeft_space_keeps TrimRight_space_rev_keeps)

lemma TrimSpace_not_empty: "x \<in> set s \<Longrightarrow> plain x \<Longrightarrow> TrimSpace s \<noteq> []"
  using TrimSpace_keeps [of x s] by auto

lemma nat_less_16:
  "n < 16 \<Longrightarrow> n \<in> {0, 1, 2, 3, 4, 5, 6, 7, 8, 9, 10, 11, 12, 13, 14, 15::nat}"
  by (simp; arith)

lemma plain_hexdigit: "n < 16 \<Longrightarrow> plain (hexdigit n)"
  by (drule nat_less_16) (auto simp: hexdigit_def plain_def space1_def)

lemma byte_nibbles: "unat (b :: byte) div 16 < 16" "unat b mod 16 < 16"
proof -
  have "unat b < 2 ^ LENGTH(8)" by (rule unsigned_less)
  then have "unat b < 256" by simp
  then show "unat b div 16 < 16" by simp
  show "unat b mod 16 < 16" by simp
qed

lemma EncodeToString_plain: "x \<in> set (EncodeToString bs) \<Longrightarrow> plain x"
  by (auto simp: EncodeToString_def plain_hexdigit byte_nibbles)

lemma length_EncodeToString: "length (EncodeToString bs) = 2 * length bs"
  by (induction bs) (simp_all add: EncodeToString_def)

lemma length_sha256: "length (sha256 m) = 32"
proof -
  have "length (state_bytes s) = 32" for s
    by (induction s rule: state_bytes.induct) (simp add: bytes_of_word32_def)
  then show ?thesis by (simp add: sha256_def)
qed

lemma length_hmac_sha256: "length (hmac_sha256 key m) = 32"
  by (simp add: hmac_sha256_def Let_def length_sha256)

lemma length_digest: "length (EncodeToString (hmac_sha256 key m)) = 64"
  by (simp add: length_EncodeToString length_hmac_sha256)

lemma digest_not_blank: "TrimSpace (EncodeToString (hmac_sha256 key m)) \<noteq> []"
proof -
  let ?s = "EncodeToString (hmac_sha256 key m)"
  have "?s \<noteq> []" using length_digest [of key m] by auto
  then obtain x where "x \<in> set ?s" by (cases ?s) auto
  then show ?thesis using TrimSpace_not_empty EncodeToString_plain by blast
qed

lemma altered_digest_not_blank:
  assumes "i < 64"
  shows "TrimSpace ((EncodeToString (hmac_sha256 key m))[i := c]) \<noteq> []"
proof -
  let ?s = "EncodeToString (hmac_sha256 key m)"
  define j where "j = (if i = 0 then 1 else 0::nat)"
  have j: "j < length ?s" "j \<noteq> i" by (simp_all add: j_def length_digest)
  have "?s ! j \<in> set ?s" using j by simp
  then have "plain (?s ! j)" by (rule EncodeToString_plain)
  then have "plain (?s[i := c] ! j)" using j by simp
  moreover have "?s[i := c] ! j \<in> set (?s[i := c])" using j by (simp del: nth_list_update_neq)
  ultimately have "\<exists>x \<in> set (?s[i := c]). plain x" by blast
  then show ?thesis using TrimSpace_not_empty by blast
qed

lemma VerifyWebhookSignature_iff:
  "VerifyWebhookSignature payload signature secret \<longleftrightarrow>
     payload \<noteq> [] \<and> TrimSpace secret \<noteq> []
     \<and> signature = EncodeToString (hmac_sha256 (bytes_of secret) (bytes_of payload))"
  using digest_not_blank [of "bytes_of secret" "bytes_of payload"]
  by (auto simp: VerifyWebhookSignature_def Let_def)

text \<open>
  Claim C4, as amended. \<open>ValidateWebhookSignature\<close> returns nil exactly when the payload
  is not empty, the secret holds something besides white space, and the signature is the
  hexadecimal HMAC-SHA256 of the payload under the secret (such a signature is never
  blank). Otherwise it returns one of four distinct errors, decided in this order: empty
  payload; signature empty or all white space; secret empty or all white space; mismatch.
  Replacing one character of the correct signature by another gives the mismatch error.
\<close>

theorem ValidateWebhookSignature_cases:
  "(ValidateWebhookSignature payload signature secret = None \<longleftrightarrow>
      payload \<noteq> [] \<and> TrimSpace secret \<noteq> []
      \<and> signature = EncodeToString (hmac_sha256 (bytes_of secret) (bytes_of payload)))
   \<and> (ValidateWebhookSignature payload signature secret = Some ErrEmptyPayload \<longleftrightarrow>
        payload = [])
   \<and> (ValidateWebhookSignature payload signature secret = Some ErrEmptySignature \<longleftrightarrow>
        payload \<noteq> [] \<and> TrimSpace signature = [])
   \<and> (ValidateWebhookSignature payload signature secret = Some ErrEmptySecret \<longleftrightarrow>
        payload \<noteq> [] \<and> TrimSpace signature \<noteq> [] \<and> TrimSpace secret = [])
   \<and> (ValidateWebhookSignature payload signature secret = Some ErrInvalidSignature \<longleftrightarrow>
        payload \<noteq> [] \<and> TrimSpace signature \<noteq> [] \<and> TrimSpace secret \<noteq> []
        \<and> signature \<noteq> EncodeToString (hmac_sha256 (bytes_of secret) (bytes_of payload)))
   \<and> (payload \<noteq> [] \<and> TrimSpace secret \<noteq> [] \<and> k < 64
        \<and> x \<noteq> EncodeToString (hmac_sha256 (bytes_of secret) (bytes_of payload)) ! k
      \<longrightarrow> ValidateWebhookSignature payload
            ((EncodeToString (hmac_sha256 (bytes_of secret) (bytes_of payload)))[k := x]) secret
          = Some ErrInvalidSignature)"
proof -
  let ?digest = "EncodeToString (hmac_sha256 (bytes_of secret) (bytes_of payload))"
  have nb: "TrimSpace ?digest \<noteq> []" by (rule digest_not_blank)
  have c1: "ValidateWebhookSignature payload signature secret = None \<longleftrightarrow>
      payload \<noteq> [] \<and> TrimSpace secret \<noteq> [] \<and> signature = ?digest"
    using nb by (auto simp: ValidateWebhookSignature_def VerifyWebhookSignature_iff)
  have c2: "ValidateWebhookSignature payload signature secret = Some ErrEmptyPayload \<longleftrightarrow>
      payload = []"
    by (simp add: ValidateWebhookSignature_def)
  have c3: "ValidateWebhookSignature payload signature secret = Some ErrEmptySignature \<longleftrightarrow>
      payload \<noteq> [] \<and> TrimSpace signature = []"
    by (simp add: ValidateWebhookSignature_def)
  have c4: "ValidateWebhookSignature payload signature secret = Some ErrEmptySecret \<longleftrightarrow>
      payload \<noteq> [] \<and> TrimSpace signature \<noteq> [] \<and> TrimSpace secret = []"
    by (simp add: ValidateWebhookSignature_def)
  have c5: "ValidateWebhookSignature payload signature secret = Some ErrInvalidSignature \<longleftrightarrow>
      payload \<noteq> [] \<and> TrimSpace signature \<noteq> [] \<and> TrimSpace secret \<noteq> [] \<and> signature \<noteq> ?digest"
    by (auto simp: ValidateWebhookSignature_def VerifyWebhookSignature_iff)
  have c6: "payload \<noteq> [] \<and> TrimSpace secret \<noteq> [] \<and> k < 64 \<and> x \<noteq> ?digest ! k
      \<longrightarrow> ValidateWebhookSignature payload (?digest[k := x]) secret = Some ErrInvalidSignature"
  proof (intro impI, elim conjE)
    assume a: "payload \<noteq> []" "TrimSpace secret \<noteq> []" "k < 64" "x \<noteq> ?digest ! k"
    have "k < length ?digest" using a(3) by (simp add: length_digest)
    then have "?digest[k := x] ! k = x" by simp
    with a(4) have differs: "?digest[k := x] \<noteq> ?digest" by metis
    have "TrimSpace (?digest[k := x]) \<noteq> []" using a(3) by (rule altered_digest_not_blank)
    with a(1,2) differs show
      "ValidateWebhookSignature payload (?digest[k := x]) secret = Some ErrInvalidSignature"
      by (simp add: ValidateWebhookSignature_def VerifyWebhookSignature_iff)
  qed
  from c1 c2 c3 c4 c5 c6 show ?thesis by (intro conjI)
qed

lemma TrimSpace_s: "TrimSpace ''s'' = ''s''"
  by (simp add: TrimSpace_def space1_def)

lemma digest_chars_not_space:
  "CHR '' '' \<noteq> EncodeToString (hmac_sha256 key m) ! k" if "k < 64"
proof -
  have "EncodeToString (hmac_sha256 key m) ! k \<in> set (EncodeToString (hmac_sha256 key m))"
    using that by (simp add: length_digest)
  then have "plain (EncodeToString (hmac_sha256 key m) ! k)" by (rule EncodeToString_plain)
  moreover have "\<not> plain CHR '' ''" by (simp add: plain_def space1_def)
  ultimately show ?thesis by metis
qed

theorem ValidateWebhookSignature_cases_witness:
  "''hello'' \<noteq> [] \<and> TrimSpace ''s'' \<noteq> [] \<and> (0::nat) < 64
   \<and> CHR '' '' \<noteq> EncodeToString (hmac_sha256 (bytes_of ''s'') (bytes_of ''hello'')) ! 0
   \<and> ValidateWebhookSignature ''hello''
        (EncodeToString (hmac_sha256 (bytes_of ''s'') (bytes_of ''hello''))) ''s'' = None
   \<and> ValidateWebhookSignature ''hello''
        ((EncodeToString (hmac_sha256 (bytes_of ''s'') (bytes_of ''hello'')))[0 := CHR '' ''])
        ''s'' = Some ErrInvalidSignature
   \<and> ValidateWebhookSignature [] ''00'' ''s'' = Some ErrEmptyPayload"
  using ValidateWebhookSignature_cases [of "''hello''"
      "EncodeToString (hmac_sha256 (bytes_of ''s'') (bytes_of ''hello''))" "''s''" 0 "CHR '' ''"]
    ValidateWebhookSignature_cases [of "[]" "''00''" "''s''" 0 "CHR '' ''"]
    digest_chars_not_space [of 0 "bytes_of ''s''" "bytes_of ''hello''"]
  by (simp add: TrimSpace_s)

text \<open>
  Claim C4 as stated fails: the emptiness tests are made on the trimmed strings. With
  the secret of one space, the payload, the signature and the secret are all non-empty
  and the signature is the HMAC of the payload under the secret, yet the result is the
  empty-secret error.
\<close>

theorem ValidateWebhookSignature_blank_secret_counterexample:
  "''hello'' \<noteq> []
   \<and> EncodeToString (hmac_sha256 (bytes_of '' '') (bytes_of ''hello'')) \<noteq> []
   \<and> '' '' \<noteq> []
   \<and> ValidateWebhookSignature ''hello''
        (EncodeToString (hmac_sha256 (bytes_of '' '') (bytes_of ''hello''))) '' ''
       = Some ErrEmptySecret"
proof -
  have "TrimSpace '' '' = []" by (simp add: TrimSpace_def space1_def)
  moreover have "TrimSpace (EncodeToString (hmac_sha256 (bytes_of '' '') (bytes_of ''hello''))) \<noteq> []"
    by (rule digest_not_blank)
  moreover have "EncodeToString (hmac_sha256 (bytes_of '' '') (bytes_of ''hello'')) \<noteq> []"
    using length_digest [of "bytes_of '' ''" "bytes_of ''hello''"] by auto
  ultimately show ?thesis by (simp add: ValidateWebhookSignature_def)
qed


end
